theory Spec2Isabelle
  imports Main
begin

section \<open>Package errors: RemediationError\<close>

text \<open>
  A shallow embedding of \<^verbatim>\<open>pkg/errors/remediation_error.go\<close>: the struct
  \<^verbatim>\<open>RemediationError\<close> and its three methods \<^verbatim>\<open>Unwrap\<close>, \<^verbatim>\<open>Error\<close> and
  \<^verbatim>\<open>Print\<close>, together with the two standard-library functions \<^verbatim>\<open>Print\<close> calls
  (\<^verbatim>\<open>strings.TrimRight\<close> and \<^verbatim>\<open>fmt.Fprintf\<close>).
\<close>

subsection \<open>Go values\<close>

text \<open>
  Go strings are byte sequences; \<^typ>\<open>string\<close> is a list of 8-bit characters. The line
  feed is written \<open>\<newline>\<close> inside a literal; the carriage return and the tab have
  no literal form.
\<close>

abbreviation LF :: char where "LF \<equiv> CHR 0x0A"
abbreviation CR :: char where "CR \<equiv> CHR 0x0D"
abbreviation TAB :: char where "TAB \<equiv> CHR 0x09"

text \<open>
  What stops a Go function without a result. \<open>NilDereference\<close> is the run-time panic of
  a method call through a nil interface value. \<open>UnmodelledFormat\<close> is not a behaviour of
  Go: it marks a format string outside the fragment of package \<^verbatim>\<open>fmt\<close> that
  \<open>Sprintf\<close> below covers.
\<close>

datatype fault = NilDereference | UnmodelledFormat

text \<open>
  A non-nil value of the interface type \<^verbatim>\<open>error\<close>. \<open>identity\<close> stands for what Go's
  \<^verbatim>\<open>==\<close> compares on interface values (the dynamic type and value: for
  \<^verbatim>\<open>errors.New\<close>, the pointer), \<open>message\<close> for the string the value's own
  \<^verbatim>\<open>Error()\<close> method returns. Two error values with the same message may differ.
  The interface type itself adds nil, which is \<open>None\<close>.
\<close>

datatype error_value = ErrorValue (identity: nat) (message: string)

type_synonym error = "error_value option"

text \<open>
  The dynamic call \<^verbatim>\<open>e.Error()\<close> on an interface value \<^verbatim>\<open>e\<close>: it panics when
  \<^verbatim>\<open>e\<close> is nil.
\<close>

definition error_Error :: "error \<Rightarrow> fault + string" where
  "error_Error e = (case e of None \<Rightarrow> Inl NilDereference | Some v \<Rightarrow> Inr (message v))"

text \<open>
  An \<^verbatim>\<open>io.Writer\<close> is modelled as the bytes it has accepted so far, in order (a
  \<^verbatim>\<open>bytes.Buffer\<close>); \<open>Write\<close> appends.
\<close>

type_synonym writer = string

definition Write :: "writer \<Rightarrow> string \<Rightarrow> writer" where
  "Write w p = w @ p"

subsection \<open>strings.TrimRight\<close>

text \<open>
  \<^verbatim>\<open>strings.TrimRight(s, cutset)\<close> for a cutset of ASCII characters, where Go works
  on bytes:
  \<^verbatim>\<open>for len(s) > 0 { if !as.contains(s[len(s)-1]) { break }; s = s[:len(s)-1] }; return s\<close>
\<close>

function TrimRight :: "string \<Rightarrow> string \<Rightarrow> string" where
  "TrimRight s cutset =
     (if s \<noteq> [] \<and> last s \<in> set cutset then TrimRight (butlast s) cutset else s)"
  by pat_completeness auto
termination
  by (relation "measure (\<lambda>(s, cutset). length s)") auto

declare TrimRight.simps [simp del]

subsection \<open>fmt.Sprintf and fmt.Fprintf\<close>

text \<open>
  The fragment of \<^verbatim>\<open>fmt\<close>'s formatting that this package uses: a format is scanned
  from the left; a byte other than \<open>%\<close> is copied; \<open>%%\<close> writes one \<open>%\<close>; \<open>%s\<close> writes
  the next operand as it is, or \<open>%!s(MISSING)\<close> when no operand is left; a \<open>%\<close> that
  ends the format writes \<open>%!(NOVERB)\<close>; operands left over at the end are reported as
  \<open>%!(EXTRA string=..., string=...)\<close>. All operands are strings. Any other verb, flag,
  width or precision is outside the fragment and gives \<open>Inl UnmodelledFormat\<close>.
\<close>

fun extraOperands :: "string list \<Rightarrow> string" where
  "extraOperands [] = []"
| "extraOperands [x] = ''string='' @ x"
| "extraOperands (x # y # xs) = ''string='' @ x @ '', '' @ extraOperands (y # xs)"

fun doPrintf :: "string \<Rightarrow> string list \<Rightarrow> fault + string" where
  "doPrintf [] a = Inr (if a = [] then [] else ''%!(EXTRA '' @ extraOperands a @ '')'')"
| "doPrintf [c] a =
     (case doPrintf [] a of
        Inl f \<Rightarrow> Inl f
      | Inr t \<Rightarrow> Inr ((if c = CHR ''%'' then ''%!(NOVERB)'' else [c]) @ t))"
| "doPrintf (c # d # format) a =
     (if c \<noteq> CHR ''%'' then
        (case doPrintf (d # format) a of Inl f \<Rightarrow> Inl f | Inr t \<Rightarrow> Inr (c # t))
      else if d = CHR ''%'' then
        (case doPrintf format a of Inl f \<Rightarrow> Inl f | Inr t \<Rightarrow> Inr (CHR ''%'' # t))
      else if d = CHR ''s'' then
        (case a of
           [] \<Rightarrow>
             (case doPrintf format [] of
                Inl f \<Rightarrow> Inl f
              | Inr t \<Rightarrow> Inr (''%!s(MISSING)'' @ t))
         | x # xs \<Rightarrow>
             (case doPrintf format xs of Inl f \<Rightarrow> Inl f | Inr t \<Rightarrow> Inr (x @ t)))
      else Inl UnmodelledFormat)"

definition Sprintf :: "string \<Rightarrow> string list \<Rightarrow> fault + string" where
  "Sprintf format a = doPrintf format a"

text \<open>
  \<^verbatim>\<open>fmt.Fprintf(w, format, a...)\<close> formats and writes the text to \<open>w\<close>. Its results
  (the byte count and the writer's error) are discarded at both call sites of this
  package, so the model returns the writer only.
\<close>

definition Fprintf :: "writer \<Rightarrow> string \<Rightarrow> string list \<Rightarrow> fault + writer" where
  "Fprintf w format a =
     (case Sprintf format a of Inl f \<Rightarrow> Inl f | Inr t \<Rightarrow> Inr (Write w t))"

subsection \<open>RemediationError and its methods\<close>

record RemediationError =
  Prefix :: string
  Inner :: error
  Remediation :: string

text \<open>\<^verbatim>\<open>func (re RemediationError) Unwrap() error { return re.Inner }\<close>\<close>

definition Unwrap :: "RemediationError \<Rightarrow> error" where
  "Unwrap re = Inner re"

text \<open>
  \<^verbatim>\<open>func (re RemediationError) Error() string\<close>: the empty string when
  \<^verbatim>\<open>re.Inner == nil\<close>, and \<^verbatim>\<open>re.Inner.Error()\<close> otherwise.
\<close>

definition Error :: "RemediationError \<Rightarrow> fault + string" where
  "Error re = (if Inner re = None then Inr [] else error_Error (Inner re))"

text \<open>
  \<^verbatim>\<open>func (re RemediationError) Print(w io.Writer)\<close>. The function
  \<^verbatim>\<open>text.Error\<close> that it calls for the inner error belongs to package
  \<^verbatim>\<open>pkg/text\<close>, whose code is not embedded here, so \<open>Print\<close> takes it as the
  parameter \<open>textError\<close>: \<open>textError format a\<close> is the text that
  \<^verbatim>\<open>text.Error(w, format, a...)\<close> sends to \<open>w\<close>, or \<open>Inl\<close> when the call does not
  return.
\<close>

definition Print ::
  "(string \<Rightarrow> string list \<Rightarrow> fault + string) \<Rightarrow> RemediationError \<Rightarrow> writer \<Rightarrow> fault + writer"
where
  "Print textError re w =
     (case (if Prefix re \<noteq> []
            then Fprintf w ''%s\<newline>\<newline>'' [TrimRight (Prefix re) [CR, LF]]
            else Inr w) of
        Inl f \<Rightarrow> Inl f
      | Inr w1 \<Rightarrow>
     (case (if Inner re \<noteq> None
            then (case error_Error (Inner re) of
                    Inl f \<Rightarrow> Inl f
                  | Inr m \<Rightarrow>
                      (case textError ''%s.\<newline>\<newline>'' [m] of
                         Inl f \<Rightarrow> Inl f
                       | Inr t \<Rightarrow> Inr (Write w1 t)))
            else Inr w1) of
        Inl f \<Rightarrow> Inl f
      | Inr w2 \<Rightarrow>
     (if Remediation re \<noteq> []
      then Fprintf w2 ''%s\<newline>'' [TrimRight (Remediation re) [CR, LF]]
      else Inr w2)))"

text \<open>
  Modelled from the spec: \<^verbatim>\<open>text.Error\<close> (package \<^verbatim>\<open>pkg/text\<close>) is missing from
  the sources. The spec has it write the formatted text behind a heading, as the
  comment of \<open>Print\<close> has (\<^verbatim>\<open>an "Error: " prefix\<close>). On the line breaks the source
  is followed where the two differ: the spec keeps the two line feeds of the format,
  the comment at the call (\<^verbatim>\<open>single "\n" ensured by text.Error\<close>) has every run of
  line breaks that ends the format replaced by one line feed. The bytes of the heading
  are \<^verbatim>\<open>text.Error\<close>'s own and stay a parameter; \<^verbatim>\<open>Error: \<close> is the heading that
  the spec and the comment of \<open>Print\<close> name.
\<close>

definition text_Error :: "string \<Rightarrow> string \<Rightarrow> string list \<Rightarrow> fault + string" where
  "text_Error heading format a =
     (case Sprintf (TrimRight format [CR, LF] @ ''\<newline>'') a of
        Inl f \<Rightarrow> Inl f
      | Inr t \<Rightarrow> Inr (heading @ t))"

subsection \<open>Sequences of method calls\<close>

text \<open>
  The three methods have value receivers and assign to no field. To speak of the
  receiver after a call, a caller's state holds the \<^verbatim>\<open>RemediationError\<close> the
  methods are called on, the writer handed to \<open>Print\<close>, and the values returned so far
  (latest first); \<open>invoke\<close> makes one call, \<open>run\<close> a sequence of calls, stopping at
  the first that does not return.
\<close>

datatype call = CallUnwrap | CallError | CallPrint

datatype returned = ReturnedError error | ReturnedString string

record caller_state =
  receiver :: RemediationError
  sink :: writer
  results :: "returned list"

fun invoke ::
  "(string \<Rightarrow> string list \<Rightarrow> fault + string) \<Rightarrow> call \<Rightarrow> caller_state \<Rightarrow> fault + caller_state"
where
  "invoke textError CallUnwrap st =
     Inr (st\<lparr>results := ReturnedError (Unwrap (receiver st)) # results st\<rparr>)"
| "invoke textError CallError st =
     (case Error (receiver st) of
        Inl f \<Rightarrow> Inl f
      | Inr m \<Rightarrow> Inr (st\<lparr>results := ReturnedString m # results st\<rparr>))"
| "invoke textError CallPrint st =
     (case Print textError (receiver st) (sink st) of
        Inl f \<Rightarrow> Inl f
      | Inr w \<Rightarrow> Inr (st\<lparr>sink := w\<rparr>))"

fun run ::
  "(string \<Rightarrow> string list \<Rightarrow> fault + string) \<Rightarrow> call list \<Rightarrow> caller_state \<Rightarrow> fault + caller_state"
where
  "run textError [] st = Inr st"
| "run textError (c # cs) st =
     (case invoke textError c st of Inl f \<Rightarrow> Inl f | Inr st' \<Rightarrow> run textError cs st')"

section \<open>Auxiliary facts\<close>

subsection \<open>TrimRight removes the longest trailing run of cutset bytes\<close>

lemma TrimRight_eq: "TrimRight s cutset = rev (dropWhile (\<lambda>c. c \<in> set cutset) (rev s))"
proof (induction s cutset rule: TrimRight.induct)
  case (1 s cutset)
  show ?case
  proof (cases "s \<noteq> [] \<and> last s \<in> set cutset")
    case True
    then have "s = butlast s @ [last s]"
      by simp
    then have "rev s = last s # rev (butlast s)"
      by (metis rev.simps(2) rev_rev_ident rev_append rev_singleton_conv append_Cons append_Nil)
    then have "dropWhile (\<lambda>c. c \<in> set cutset) (rev s) =
        dropWhile (\<lambda>c. c \<in> set cutset) (last s # rev (butlast s))"
      by (rule arg_cong)
    also have "\<dots> = dropWhile (\<lambda>c. c \<in> set cutset) (rev (butlast s))"
      using True by simp
    finally have drop: "dropWhile (\<lambda>c. c \<in> set cutset) (rev s) =
        dropWhile (\<lambda>c. c \<in> set cutset) (rev (butlast s))" .
    have "TrimRight s cutset = TrimRight (butlast s) cutset"
      using True by (subst TrimRight.simps) simp
    with 1 True drop show ?thesis
      by simp
  next
    case False
    have unchanged: "TrimRight s cutset = s"
      using False by (subst TrimRight.simps) auto
    show ?thesis
    proof (cases s rule: rev_cases)
      case Nil
      with unchanged show ?thesis by simp
    next
      case (snoc ys y)
      with False have "y \<notin> set cutset" by simp
      with snoc unchanged show ?thesis by simp
    qed
  qed
qed

lemma TrimRight_line_breaks:
  assumes "set t \<subseteq> {CR, LF}" and "p = [] \<or> last p \<notin> {CR, LF}"
  shows "TrimRight (p @ t) [CR, LF] = p"
proof -
  from assms(1) have "dropWhile (\<lambda>c. c \<in> set [CR, LF]) (rev t @ rev p) =
      dropWhile (\<lambda>c. c \<in> set [CR, LF]) (rev p)"
    by (intro dropWhile_append2) auto
  moreover from assms(2) have "dropWhile (\<lambda>c. c \<in> set [CR, LF]) (rev p) = rev p"
    by (cases p rule: rev_cases) auto
  ultimately show ?thesis
    by (simp add: TrimRight_eq)
qed

lemma TrimRight_decompose:
  "\<exists>t. s = TrimRight s cutset @ t \<and> set t \<subseteq> set cutset"
proof -
  let ?P = "\<lambda>c. c \<in> set cutset"
  have "rev s = takeWhile ?P (rev s) @ dropWhile ?P (rev s)"
    by simp
  then have "s = rev (dropWhile ?P (rev s)) @ rev (takeWhile ?P (rev s))"
    by (metis rev_append rev_rev_ident)
  moreover have "set (rev (takeWhile ?P (rev s))) \<subseteq> set cutset"
    by (auto dest: set_takeWhileD)
  ultimately show ?thesis
    unfolding TrimRight_eq by blast
qed

lemma TrimRight_end:
  "TrimRight s cutset = [] \<or> last (TrimRight s cutset) \<notin> set cutset"
proof (cases "dropWhile (\<lambda>c. c \<in> set cutset) (rev s)")
  case Nil
  then show ?thesis by (simp add: TrimRight_eq)
next
  case (Cons y ys)
  then have "y \<notin> set cutset"
    by (metis (mono_tags, lifting) dropWhile_eq_Cons_conv)
  with Cons show ?thesis
    by (simp add: TrimRight_eq)
qed

text \<open>Every string is a text followed by its trailing run of carriage returns and line feeds.\<close>

lemma trailing_line_breaks_split:
  "\<exists>p t. s = p @ t \<and> set t \<subseteq> {CR, LF} \<and> (p = [] \<or> last p \<notin> {CR, LF})"
proof -
  obtain t where "s = TrimRight s [CR, LF] @ t" and "set t \<subseteq> set [CR, LF]"
    using TrimRight_decompose by blast
  moreover have "TrimRight s [CR, LF] = [] \<or> last (TrimRight s [CR, LF]) \<notin> set [CR, LF]"
    by (rule TrimRight_end)
  ultimately show ?thesis
    by (intro exI [of _ "TrimRight s [CR, LF]"] exI [of _ t]) simp
qed

subsection \<open>The formats of Print\<close>

text \<open>
  Each of the three formats holds one \<open>%s\<close> and literal bytes: whatever the operand
  holds, it is written as it is. \<open>Print_closed\<close> gives the writer after \<open>Print\<close> for
  any \<^verbatim>\<open>text.Error\<close>.
\<close>

lemma Sprintf_prefix_format: "Sprintf ''%s\<newline>\<newline>'' [x] = Inr (x @ ''\<newline>\<newline>'')"
  by (simp add: Sprintf_def)

lemma Sprintf_inner_format: "Sprintf ''%s.\<newline>\<newline>'' [x] = Inr (x @ ''.\<newline>\<newline>'')"
  by (simp add: Sprintf_def)

lemma Sprintf_remediation_format: "Sprintf ''%s\<newline>'' [x] = Inr (x @ ''\<newline>'')"
  by (simp add: Sprintf_def)

lemma text_Error_inner_format:
  "text_Error heading ''%s.\<newline>\<newline>'' [x] = Inr (heading @ x @ ''.\<newline>'')"
proof -
  have "TrimRight ''%s.\<newline>\<newline>'' [CR, LF] = ''%s.''"
    by (simp add: TrimRight_eq)
  then show ?thesis
    by (simp add: text_Error_def Sprintf_def)
qed

text \<open>
  Whatever the heading, a text that ends in \<^verbatim>\<open>.\nRun X\n\<close> is not one that ends in
  \<^verbatim>\<open>.\n\nRun X\n\<close>.
\<close>

lemma single_line_break_differs:
  "heading @ ''token invalid.\<newline>Run X\<newline>'' \<noteq> ''Error: token invalid.\<newline>\<newline>Run X\<newline>''"
proof
  assume "heading @ ''token invalid.\<newline>Run X\<newline>'' = ''Error: token invalid.\<newline>\<newline>Run X\<newline>''"
  then have "rev (heading @ ''token invalid.\<newline>Run X\<newline>'') =
      rev ''Error: token invalid.\<newline>\<newline>Run X\<newline>''"
    by (rule arg_cong)
  then have "take 8 (rev ''token invalid.\<newline>Run X\<newline>'' @ rev heading) =
      take 8 (rev ''Error: token invalid.\<newline>\<newline>Run X\<newline>'')"
    by (simp only: rev_append)
  then show False
    by simp
qed

lemma Print_closed:
  "Print textError re w =
     (case (case Inner re of None \<Rightarrow> Inr [] | Some e \<Rightarrow> textError ''%s.\<newline>\<newline>'' [message e]) of
        Inl f \<Rightarrow> Inl f
      | Inr ib \<Rightarrow>
          Inr (w @ (if Prefix re = [] then [] else TrimRight (Prefix re) [CR, LF] @ ''\<newline>\<newline>'')
                 @ ib
                 @ (if Remediation re = [] then [] else TrimRight (Remediation re) [CR, LF] @ ''\<newline>'')))"
  by (simp add: Print_def Fprintf_def Write_def error_Error_def Sprintf_prefix_format
      Sprintf_remediation_format split: option.split sum.split)

subsection \<open>One call leaves the receiver as it is\<close>

lemma invoke_receiver:
  "invoke textError c st = Inr st' \<Longrightarrow> receiver st' = receiver st"
  by (cases c) (auto split: sum.splits)

section \<open>Properties\<close>

subsection \<open>Error\<close>

text \<open>
  C1. \<open>Error()\<close> returns the empty string when the inner error is nil, and otherwise
  exactly the inner error's message: nothing is added, and neither the prefix nor the
  remediation takes part.
\<close>

theorem Error_is_inner_message:
  "Error \<lparr>Prefix = p, Inner = i, Remediation = r\<rparr> =
     Inr (case i of None \<Rightarrow> [] | Some e \<Rightarrow> message e)"
  by (simp add: Error_def error_Error_def split: option.split)

subsection \<open>Unwrap\<close>

text \<open>
  C2. Wrapping any error value, nil included, and unwrapping it gives back that very
  value: equality of the values, not only of their messages (what comes back from
  wrapping one error value is not another error value with the same message).
\<close>

theorem Unwrap_round_trip:
  "Unwrap \<lparr>Prefix = p, Inner = e, Remediation = r\<rparr> = e
   \<and> Unwrap \<lparr>Prefix = p, Inner = Some (ErrorValue 1 m), Remediation = r\<rparr> \<noteq> Some (ErrorValue 2 m)"
  by (simp add: Unwrap_def)

subsection \<open>Print\<close>

text \<open>
  Where a statement below needs a concrete \<^verbatim>\<open>text.Error\<close> and is not about the text
  it writes, \<open>Sprintf\<close> stands in for it: a \<^verbatim>\<open>text.Error\<close> that formats and adds
  nothing.
\<close>



text \<open>
  C4. The blocks come in the order prefix, inner error, remediation. The prefix block
  and the remediation block are empty exactly when their field is empty;
  \<^verbatim>\<open>text.Error\<close> is called exactly when the inner error is not nil, and what it writes
  stands between the two. With all three fields empty or nil nothing is written. This
  holds for any \<^verbatim>\<open>text.Error\<close>; with the one of \<open>text_Error\<close>, under any heading,
  the inner block is never empty.
\<close>

theorem Print_blocks_in_order:
  "(let pb = (if Prefix re = [] then [] else TrimRight (Prefix re) [CR, LF] @ ''\<newline>\<newline>'');
        rb = (if Remediation re = [] then [] else TrimRight (Remediation re) [CR, LF] @ ''\<newline>'')
    in (pb = [] \<longleftrightarrow> Prefix re = []) \<and> (rb = [] \<longleftrightarrow> Remediation re = []) \<and>
       Print textError re w =
         (case Inner re of
            None \<Rightarrow> Inr (w @ pb @ rb)
          | Some e \<Rightarrow>
              (case textError ''%s.\<newline>\<newline>'' [message e] of
                 Inl f \<Rightarrow> Inl f
               | Inr ib \<Rightarrow> Inr (w @ pb @ ib @ rb))))
   \<and> (\<exists>ib. text_Error heading ''%s.\<newline>\<newline>'' [m] = Inr ib \<and> ib \<noteq> [])
   \<and> Print textError \<lparr>Prefix = [], Inner = None, Remediation = []\<rparr> w = Inr w"
  by (simp add: Print_closed Let_def text_Error_inner_format split: option.split sum.split)

text \<open>
  C5. A prefix \<open>p @ t\<close> and a remediation \<open>r @ u\<close>, where \<open>t\<close> and \<open>u\<close> are the
  trailing runs of carriage returns and line feeds, are written as \<open>p\<close> followed by a
  blank line and \<open>r\<close> followed by one line break: the trailing run is stripped before
  the fixed line breaks are added (an empty field gives no block). Every string has
  this form (\<open>trailing_line_breaks_split\<close>). The prefix \<^verbatim>\<open>Custom context\<close> alone gives
  \<^verbatim>\<open>Custom context\n\n\<close>.
\<close>

theorem Print_trims_line_breaks:
  assumes "set t \<subseteq> {CR, LF}" and "p = [] \<or> last p \<notin> {CR, LF}"
    and "set u \<subseteq> {CR, LF}" and "r = [] \<or> last r \<notin> {CR, LF}"
  shows "Print textError \<lparr>Prefix = p @ t, Inner = i, Remediation = r @ u\<rparr> w =
           (case (case i of None \<Rightarrow> Inr [] | Some e \<Rightarrow> textError ''%s.\<newline>\<newline>'' [message e]) of
              Inl f \<Rightarrow> Inl f
            | Inr ib \<Rightarrow>
                Inr (w @ (if p @ t = [] then [] else p @ ''\<newline>\<newline>'') @ ib
                       @ (if r @ u = [] then [] else r @ ''\<newline>'')))
         \<and> Print textError \<lparr>Prefix = ''Custom context'', Inner = None, Remediation = []\<rparr> [] =
           Inr ''Custom context\<newline>\<newline>''"
proof (intro conjI)
  have p: "TrimRight (p @ t) [CR, LF] = p" and r: "TrimRight (r @ u) [CR, LF] = r"
    using assms by (simp_all add: TrimRight_line_breaks)
  show "Print textError \<lparr>Prefix = p @ t, Inner = i, Remediation = r @ u\<rparr> w =
           (case (case i of None \<Rightarrow> Inr [] | Some e \<Rightarrow> textError ''%s.\<newline>\<newline>'' [message e]) of
              Inl f \<Rightarrow> Inl f
            | Inr ib \<Rightarrow>
                Inr (w @ (if p @ t = [] then [] else p @ ''\<newline>\<newline>'') @ ib
                       @ (if r @ u = [] then [] else r @ ''\<newline>'')))"
    unfolding Print_closed by (simp only: RemediationError.simps p r)
  have "TrimRight ''Custom context'' [CR, LF] = ''Custom context''"
    by (simp add: TrimRight_eq)
  then show "Print textError \<lparr>Prefix = ''Custom context'', Inner = None, Remediation = []\<rparr> [] =
           Inr ''Custom context\<newline>\<newline>''"
    by (simp add: Print_closed)
qed

theorem Print_trims_line_breaks_witness:
  "Print Sprintf
     \<lparr>Prefix = ''text'' @ [CR, LF, CR, LF], Inner = None, Remediation = ''Run X'' @ [LF]\<rparr> [] =
   Inr ''text\<newline>\<newline>Run X\<newline>''"
  using Print_trims_line_breaks [of "[CR, LF, CR, LF]" "''text''" "[LF]" "''Run X''" Sprintf None "[]"]
  by simp

text \<open>
  C9. The trimming removes nothing but the trailing carriage returns and line feeds: a
  field whose last byte before that run is any other byte \<open>c\<close> (a space or a tab, say)
  keeps everything up to and including \<open>c\<close>, line breaks in its interior included;
  and for any string \<open>s\<close>, what the trimming takes away is a suffix of carriage
  returns and line feeds.
\<close>

theorem Print_keeps_all_but_trailing_line_breaks:
  assumes "c \<notin> {CR, LF}" and "set t \<subseteq> {CR, LF}"
    and "d \<notin> {CR, LF}" and "set u \<subseteq> {CR, LF}"
  shows "TrimRight (p @ [c] @ t) [CR, LF] = p @ [c]
       \<and> TrimRight (r @ [d] @ u) [CR, LF] = r @ [d]
       \<and> Print textError \<lparr>Prefix = p @ [c] @ t, Inner = i, Remediation = r @ [d] @ u\<rparr> w =
           (case (case i of None \<Rightarrow> Inr [] | Some e \<Rightarrow> textError ''%s.\<newline>\<newline>'' [message e]) of
              Inl f \<Rightarrow> Inl f
            | Inr ib \<Rightarrow> Inr (w @ p @ [c] @ ''\<newline>\<newline>'' @ ib @ r @ [d] @ ''\<newline>''))
       \<and> (\<exists>v. s = TrimRight s [CR, LF] @ v \<and> set v \<subseteq> {CR, LF})"
proof -
  have p: "TrimRight (p @ [c] @ t) [CR, LF] = p @ [c]"
    using TrimRight_line_breaks [of t "p @ [c]"] assms(1,2) by simp
  have r: "TrimRight (r @ [d] @ u) [CR, LF] = r @ [d]"
    using TrimRight_line_breaks [of u "r @ [d]"] assms(3,4) by simp
  have s: "\<exists>v. s = TrimRight s [CR, LF] @ v \<and> set v \<subseteq> {CR, LF}"
    using TrimRight_decompose [of s "[CR, LF]"] by simp
  from p r have "Print textError \<lparr>Prefix = p @ [c] @ t, Inner = i, Remediation = r @ [d] @ u\<rparr> w =
           (case (case i of None \<Rightarrow> Inr [] | Some e \<Rightarrow> textError ''%s.\<newline>\<newline>'' [message e]) of
              Inl f \<Rightarrow> Inl f
            | Inr ib \<Rightarrow> Inr (w @ p @ [c] @ ''\<newline>\<newline>'' @ ib @ r @ [d] @ ''\<newline>''))"
    by (simp add: Print_closed split: option.split sum.split)
  with p r s show ?thesis
    by (intro conjI)
qed

theorem Print_keeps_all_but_trailing_line_breaks_witness:
  "TrimRight (''a'' @ [CR, LF] @ ''b '' @ [CR, LF]) [CR, LF] = ''a'' @ [CR, LF] @ ''b ''
   \<and> TrimRight (''x\<newline>y'' @ [TAB]) [CR, LF] = ''x\<newline>y'' @ [TAB]
   \<and> Print Sprintf
       \<lparr>Prefix = ''a'' @ [CR, LF] @ ''b '' @ [CR, LF], Inner = None,
        Remediation = ''x\<newline>y'' @ [TAB]\<rparr> [] =
     Inr (''a'' @ [CR, LF] @ ''b \<newline>\<newline>x\<newline>y'' @ [TAB] @ ''\<newline>'')"
  using Print_keeps_all_but_trailing_line_breaks
    [of "CHR '' ''" "[CR, LF]" TAB "[]" "''a'' @ [CR, LF] @ ''b''" "''x\<newline>y''" Sprintf None "[]" "[]"]
  by simp

text \<open>
  C8. Prefix, inner message and remediation are operands of a constant format, never
  the format: each of the three formats writes its operand as it is, whatever bytes it
  holds, so \<open>Print\<close> writes the trimmed prefix and remediation unchanged and hands the
  message to \<^verbatim>\<open>text.Error\<close> as the operand of \<^verbatim>\<open>%s.\n\n\<close>. Fields holding
  \<^verbatim>\<open>%s\<close>, \<^verbatim>\<open>%d\<close> and \<^verbatim>\<open>%v\<close> come out unchanged, whereas the prefix
  \<^verbatim>\<open>100%s\<close> used as a format would come out as \<^verbatim>\<open>100%!s(MISSING)\<close>.
\<close>

theorem Print_operands_not_formats:
  "Sprintf ''%s\<newline>\<newline>'' [x] = Inr (x @ ''\<newline>\<newline>'')
   \<and> Sprintf ''%s.\<newline>\<newline>'' [x] = Inr (x @ ''.\<newline>\<newline>'')
   \<and> Sprintf ''%s\<newline>'' [x] = Inr (x @ ''\<newline>'')
   \<and> Print textError \<lparr>Prefix = p, Inner = i, Remediation = r\<rparr> w =
       (case (case i of None \<Rightarrow> Inr [] | Some e \<Rightarrow> textError ''%s.\<newline>\<newline>'' [message e]) of
          Inl f \<Rightarrow> Inl f
        | Inr ib \<Rightarrow>
            Inr (w @ (if p = [] then [] else TrimRight p [CR, LF] @ ''\<newline>\<newline>'') @ ib
                   @ (if r = [] then [] else TrimRight r [CR, LF] @ ''\<newline>'')))
   \<and> Print (text_Error heading)
       \<lparr>Prefix = ''100%s'', Inner = Some (ErrorValue n ''bad %d''), Remediation = ''use %v''\<rparr> [] =
       Inr (''100%s\<newline>\<newline>'' @ heading @ ''bad %d.\<newline>use %v\<newline>'')
   \<and> Sprintf ''100%s'' [] = Inr ''100%!s(MISSING)''"
proof (intro conjI)
  show "Sprintf ''100%s'' [] = Inr ''100%!s(MISSING)''"
    by (simp add: Sprintf_def)
  show "Print textError \<lparr>Prefix = p, Inner = i, Remediation = r\<rparr> w =
       (case (case i of None \<Rightarrow> Inr [] | Some e \<Rightarrow> textError ''%s.\<newline>\<newline>'' [message e]) of
          Inl f \<Rightarrow> Inl f
        | Inr ib \<Rightarrow>
            Inr (w @ (if p = [] then [] else TrimRight p [CR, LF] @ ''\<newline>\<newline>'') @ ib
                   @ (if r = [] then [] else TrimRight r [CR, LF] @ ''\<newline>'')))"
    by (simp add: Print_closed split: option.split sum.split)
  show "Print (text_Error heading)
       \<lparr>Prefix = ''100%s'', Inner = Some (ErrorValue n ''bad %d''), Remediation = ''use %v''\<rparr> [] =
       Inr (''100%s\<newline>\<newline>'' @ heading @ ''bad %d.\<newline>use %v\<newline>'')"
    by (simp add: Print_closed text_Error_inner_format TrimRight_eq)
qed (simp_all add: Sprintf_prefix_format Sprintf_inner_format Sprintf_remediation_format)



subsection \<open>Totality and the receiver\<close>

text \<open>
  C6. For all field values, nil and empty ones included, a \<^verbatim>\<open>RemediationError\<close> can be
  built, \<open>Unwrap\<close> and \<open>Error\<close> return, and \<open>Print\<close> returns whenever its call of
  \<^verbatim>\<open>text.Error\<close> does (there is no such call for a nil inner error): \<open>Print\<close> has no
  failure of its own, and with a \<^verbatim>\<open>text.Error\<close> that only formats it always returns.
\<close>

theorem operations_return:
  "Unwrap \<lparr>Prefix = p, Inner = i, Remediation = r\<rparr> = i
   \<and> (\<exists>s. Error \<lparr>Prefix = p, Inner = i, Remediation = r\<rparr> = Inr s)
   \<and> (case i of
        None \<Rightarrow> (\<exists>w'. Print textError \<lparr>Prefix = p, Inner = i, Remediation = r\<rparr> w = Inr w')
      | Some e \<Rightarrow>
          (case textError ''%s.\<newline>\<newline>'' [message e] of
             Inl f \<Rightarrow> Print textError \<lparr>Prefix = p, Inner = i, Remediation = r\<rparr> w = Inl f
           | Inr t \<Rightarrow> (\<exists>w'. Print textError \<lparr>Prefix = p, Inner = i, Remediation = r\<rparr> w = Inr w')))
   \<and> (\<exists>w'. Print Sprintf \<lparr>Prefix = p, Inner = i, Remediation = r\<rparr> w = Inr w')"
proof (intro conjI)
  show "Unwrap \<lparr>Prefix = p, Inner = i, Remediation = r\<rparr> = i"
    by (simp add: Unwrap_def)
  show "\<exists>s. Error \<lparr>Prefix = p, Inner = i, Remediation = r\<rparr> = Inr s"
    by (cases i) (simp_all add: Error_def error_Error_def)
  show "case i of
        None \<Rightarrow> (\<exists>w'. Print textError \<lparr>Prefix = p, Inner = i, Remediation = r\<rparr> w = Inr w')
      | Some e \<Rightarrow>
          (case textError ''%s.\<newline>\<newline>'' [message e] of
             Inl f \<Rightarrow> Print textError \<lparr>Prefix = p, Inner = i, Remediation = r\<rparr> w = Inl f
           | Inr t \<Rightarrow> (\<exists>w'. Print textError \<lparr>Prefix = p, Inner = i, Remediation = r\<rparr> w = Inr w'))"
    by (simp add: Print_closed split: option.split sum.split)
  show "\<exists>w'. Print Sprintf \<lparr>Prefix = p, Inner = i, Remediation = r\<rparr> w = Inr w'"
    by (cases i) (simp_all add: Print_closed Sprintf_inner_format)
qed

text \<open>
  C10. After any sequence of calls of \<open>Unwrap\<close>, \<open>Error\<close> and \<open>Print\<close> that returns, the
  receiver is the value it was before: prefix, inner error and remediation are
  unchanged.
\<close>

theorem run_leaves_receiver_unchanged:
  assumes "run textError cs st = Inr st'"
  shows "receiver st' = receiver st"
  using assms
proof (induction cs arbitrary: st)
  case Nil
  then show ?case by simp
next
  case (Cons c cs)
  then obtain st1 where step: "invoke textError c st = Inr st1"
    and rest: "run textError cs st1 = Inr st'"
    by (auto split: sum.splits)
  from Cons.IH [OF rest] invoke_receiver [OF step] show ?case
    by simp
qed

theorem run_leaves_receiver_unchanged_witness:
  "run Sprintf [CallPrint, CallError, CallUnwrap, CallPrint]
     \<lparr>receiver = \<lparr>Prefix = [], Inner = Some (ErrorValue 7 ''no''), Remediation = ''Run X''\<rparr>,
      sink = [], results = []\<rparr> =
   Inr \<lparr>receiver = \<lparr>Prefix = [], Inner = Some (ErrorValue 7 ''no''), Remediation = ''Run X''\<rparr>,
        sink = ''no.\<newline>\<newline>Run X\<newline>no.\<newline>\<newline>Run X\<newline>'',
        results = [ReturnedError (Some (ErrorValue 7 ''no'')), ReturnedString ''no'']\<rparr>
   \<and> receiver \<lparr>receiver = \<lparr>Prefix = [], Inner = Some (ErrorValue 7 ''no''), Remediation = ''Run X''\<rparr>,
        sink = ''no.\<newline>\<newline>Run X\<newline>no.\<newline>\<newline>Run X\<newline>'',
        results = [ReturnedError (Some (ErrorValue 7 ''no'')), ReturnedString ''no'']\<rparr> =
     \<lparr>Prefix = [], Inner = Some (ErrorValue 7 ''no''), Remediation = ''Run X''\<rparr>"
proof -
  have ran: "run Sprintf [CallPrint, CallError, CallUnwrap, CallPrint]
     \<lparr>receiver = \<lparr>Prefix = [], Inner = Some (ErrorValue 7 ''no''), Remediation = ''Run X''\<rparr>,
      sink = [], results = []\<rparr> =
   Inr \<lparr>receiver = \<lparr>Prefix = [], Inner = Some (ErrorValue 7 ''no''), Remediation = ''Run X''\<rparr>,
        sink = ''no.\<newline>\<newline>Run X\<newline>no.\<newline>\<newline>Run X\<newline>'',
        results = [ReturnedError (Some (ErrorValue 7 ''no'')), ReturnedString ''no'']\<rparr>"
    by (simp add: Print_closed Sprintf_inner_format TrimRight_eq Error_def error_Error_def
        Unwrap_def)
  from run_leaves_receiver_unchanged [OF ran] ran show ?thesis
    by simp
qed

end
